theory Spec2Isabelle
  imports Main
begin

section \<open>The CSV generator \<^verbatim>\<open>test_suites/generate_big_csv.py\<close>\<close>

text \<open>
  The script, in full:
  \<^verbatim>\<open>
   4  parser = argparse.ArgumentParser(description='Generate a very big CSV file.')
   5  parser.add_argument('--rows', type=int, help='how many rows to generate')
   6  args = parser.parse_args()
   8  print("type,client,tx,amount")
  10  for i in range(0, args.rows):
  11      client = i % 128
  12      print(f"deposit,{client},{i},1")
  \<close>
  Standard output is a byte string that only grows; Python's unbounded integers are
  \<^typ>\<open>int\<close>; an exception that the script does not catch ends the run and is kept
  in the result together with what had been written by then.
\<close>

subsection \<open>Decimal text of an integer\<close>

text \<open>
  The f-string of line 12 formats \<open>client\<close> and \<open>i\<close> with \<open>str\<close>: the decimal
  digits, most significant first, no leading zero, a minus sign for a negative value.
\<close>

definition digit_char :: "nat \<Rightarrow> char" where
  "digit_char d = char_of (48 + d)"

fun digits :: "nat \<Rightarrow> string" where
  "digits n = (if n < 10 then [digit_char n] else digits (n div 10) @ [digit_char (n mod 10)])"

declare digits.simps [simp del]

definition str :: "int \<Rightarrow> string" where
  "str i = (if i < 0 then CHR ''-'' # digits (nat (- i)) else digits (nat i))"

subsection \<open>Standard output\<close>

definition newline :: char where
  "newline = CHR 0x0A"

text \<open>\<open>print(s)\<close> writes \<open>s\<close> and the line terminator \<open>\n\<close> after what is there.\<close>

definition print :: "string \<Rightarrow> string \<Rightarrow> string" where
  "print s out = out @ s @ [newline]"

subsection \<open>The command line\<close>

text \<open>
  Line 5 declares one option, \<open>--rows\<close>, with \<open>type=int\<close>, neither \<open>required=True\<close>
  nor a \<open>default\<close>. The command lines considered are the one without the option and
  the one that gives it a raw value: \<open>prog\<close> and \<open>prog --rows=<s>\<close>.
\<close>

datatype cmdline = NoRows | RowsArg string

text \<open>The namespace \<open>parse_args\<close> returns: its one attribute, \<open>None\<close> when not given.\<close>

record args =
  rows :: "int option"

text \<open>
  \<open>ArgumentError\<close>: the parser rejects the command line (usage message on the error
  stream, exit status 2). \<open>TypeError\<close>: raised by \<open>range\<close> on a bound that is not
  an integer, caught by nobody (traceback on the error stream, exit status 1).
\<close>

datatype error = ArgumentError | TypeError

text \<open>
  The converter \<open>type=int\<close> is the builtin \<open>int\<close> applied to the raw value; it is
  the parameter \<open>conv\<close>, \<open>None\<close> where the builtin raises \<open>ValueError\<close>, which the
  parser turns into its own error. An option that is absent keeps the default
  \<open>None\<close> and is not an error.
\<close>

definition parse_args :: "(string \<Rightarrow> int option) \<Rightarrow> cmdline \<Rightarrow> error + args" where
  "parse_args conv cl =
     (case cl of
        NoRows \<Rightarrow> Inr \<lparr>rows = None\<rparr>
      | RowsArg s \<Rightarrow>
          (case conv s of
             None \<Rightarrow> Inl ArgumentError
           | Some n \<Rightarrow> Inr \<lparr>rows = Some n\<rparr>))"

subsection \<open>The script\<close>

text \<open>What a run leaves behind: the bytes on standard output and how it ended.\<close>

record run =
  stdout :: string
  failure :: "error option"

definition exit_status :: "run \<Rightarrow> nat" where
  "exit_status r =
     (case failure r of
        None \<Rightarrow> 0
      | Some ArgumentError \<Rightarrow> 2
      | Some TypeError \<Rightarrow> 1)"

definition header :: string where
  "header = ''type,client,tx,amount''"

text \<open>Lines 11 and 12, the body of the loop for one \<open>i\<close>.\<close>

definition row_line :: "int \<Rightarrow> int \<Rightarrow> string" where
  "row_line client i = ''deposit,'' @ str client @ '','' @ str i @ '',1''"

definition body :: "int \<Rightarrow> string \<Rightarrow> string" where
  "body i out = (let client = i mod 128 in print (row_line client i) out)"

text \<open>
  Line 10: \<open>range(0, stop)\<close> raises \<open>TypeError\<close> when \<open>stop\<close> is \<open>None\<close>; on an
  integer it counts \<open>i\<close> from the start while \<open>i < stop\<close>.
\<close>

function loop :: "int \<Rightarrow> int \<Rightarrow> string \<Rightarrow> string" where
  "loop i stop out = (if i < stop then loop (i + 1) stop (body i out) else out)"
  by pat_completeness auto
termination
  by (relation "measure (\<lambda>(i, stop, out). nat (stop - i))") auto

declare loop.simps [simp del]

definition generate :: "args \<Rightarrow> run" where
  "generate a =
     (let out = print header [] in
      case rows a of
        None \<Rightarrow> \<lparr>stdout = out, failure = Some TypeError\<rparr>
      | Some stop \<Rightarrow> \<lparr>stdout = loop 0 stop out, failure = None\<rparr>)"

definition main :: "(string \<Rightarrow> int option) \<Rightarrow> cmdline \<Rightarrow> run" where
  "main conv cl =
     (case parse_args conv cl of
        Inl e \<Rightarrow> \<lparr>stdout = [], failure = Some e\<rparr>
      | Inr a \<Rightarrow> generate a)"

subsection \<open>Reading the output back\<close>

text \<open>
  The claims speak of lines and of the four comma-separated fields of a line. These
  functions observe an output; they are not part of the script.
\<close>

fun lines_of :: "string \<Rightarrow> string list" where
  "lines_of [] = []"
| "lines_of (c # cs) =
     (if c = newline then [] # lines_of cs
      else (case lines_of cs of [] \<Rightarrow> [[c]] | l # ls \<Rightarrow> (c # l) # ls))"

definition data_lines :: "run \<Rightarrow> string list" where
  "data_lines r = tl (lines_of (stdout r))"

fun fields :: "string \<Rightarrow> string list" where
  "fields [] = [[]]"
| "fields (c # cs) =
     (if c = CHR '','' then [] # fields cs
      else (case fields cs of [] \<Rightarrow> [[c]] | f # fs \<Rightarrow> (c # f) # fs))"

definition digit_val :: "char \<Rightarrow> nat option" where
  "digit_val c =
     (let v = (of_char c :: nat) in if 48 \<le> v \<and> v \<le> 57 then Some (v - 48) else None)"

fun nat_of_digits :: "nat \<Rightarrow> string \<Rightarrow> nat option" where
  "nat_of_digits acc [] = Some acc"
| "nat_of_digits acc (c # cs) =
     (case digit_val c of None \<Rightarrow> None | Some d \<Rightarrow> nat_of_digits (10 * acc + d) cs)"

definition read_nat :: "string \<Rightarrow> nat option" where
  "read_nat s = (if s = [] then None else nat_of_digits 0 s)"

text \<open>A decimal literal in ASCII: an optional sign, then one digit or more.\<close>

definition read_int :: "string \<Rightarrow> int option" where
  "read_int s =
     (case s of
        [] \<Rightarrow> None
      | c # ds \<Rightarrow>
          if c = CHR ''-'' then map_option (\<lambda>n. - int n) (read_nat ds)
          else if c = CHR ''+'' then map_option int (read_nat ds)
          else map_option int (read_nat s))"

definition field :: "nat \<Rightarrow> string \<Rightarrow> string option" where
  "field k l = (let fs = fields l in if k < length fs then Some (fs ! k) else None)"

definition int_field :: "nat \<Rightarrow> string \<Rightarrow> int option" where
  "int_field k l = (case field k l of None \<Rightarrow> None | Some f \<Rightarrow> read_int f)"


definition client_of :: "string \<Rightarrow> int option" where
  "client_of l = int_field 1 l"

definition tx_of :: "string \<Rightarrow> int option" where
  "tx_of l = int_field 2 l"


section \<open>Properties\<close>

subsection \<open>What the loop writes\<close>

lemma loop_eq:
  "loop i stop out = out @ concat (map (\<lambda>k. row_line (k mod 128) k @ [newline]) [i..stop - 1])"
proof (induction i stop out rule: loop.induct)
  case (1 i stop out)
  show ?case
  proof (cases "i < stop")
    case True
    then have "[i..stop - 1] = i # [i + 1..stop - 1]"
      by (simp add: upto_rec1)
    with True 1 show ?thesis
      by (simp add: loop.simps [of i] body_def print_def)
  next
    case False
    then show ?thesis
      by (simp add: loop.simps [of i])
  qed
qed

lemma lines_of_line: "newline \<notin> set l \<Longrightarrow> lines_of (l @ newline # rest) = l # lines_of rest"
  by (induction l) auto

lemma lines_of_concat:
  "(\<And>l. l \<in> set ls \<Longrightarrow> newline \<notin> set l) \<Longrightarrow> lines_of (concat (map (\<lambda>l. l @ [newline]) ls)) = ls"
  by (induction ls) (simp_all add: lines_of_line)

subsection \<open>Decimal text and its digits\<close>

lemma of_char_digit_char: "d < 10 \<Longrightarrow> of_char (digit_char d) = 48 + d"
  by (simp add: digit_char_def)

lemma digit_val_digit_char: "d < 10 \<Longrightarrow> digit_val (digit_char d) = Some d"
  by (simp add: digit_val_def of_char_digit_char)

lemma digits_range: "c \<in> set (digits n) \<Longrightarrow> 48 \<le> (of_char c :: nat) \<and> (of_char c :: nat) \<le> 57"
proof (induction n rule: digits.induct)
  case (1 n)
  show ?case
  proof (cases "n < 10")
    case True
    with 1(2) have "c = digit_char n" by (simp add: digits.simps [of n])
    with True show ?thesis by (simp add: of_char_digit_char)
  next
    case False
    with 1(2) have "c \<in> set (digits (n div 10)) \<or> c = digit_char (n mod 10)"
      by (auto simp add: digits.simps [of n])
    then show ?thesis
    proof
      assume "c \<in> set (digits (n div 10))"
      with False 1(1) show ?thesis by simp
    next
      assume "c = digit_char (n mod 10)"
      then show ?thesis by (simp add: of_char_digit_char)
    qed
  qed
qed

lemma digits_not_Nil: "digits n \<noteq> []"
  by (subst digits.simps) simp

lemma nat_of_digits_append:
  "nat_of_digits acc (xs @ ys) = (case nat_of_digits acc xs of None \<Rightarrow> None | Some v \<Rightarrow> nat_of_digits v ys)"
  by (induction xs arbitrary: acc) (simp_all split: option.splits)

lemma nat_of_digits_digits: "nat_of_digits 0 (digits n) = Some n"
proof (induction n rule: digits.induct)
  case (1 n)
  show ?case
  proof (cases "n < 10")
    case True
    then show ?thesis by (simp add: digits.simps [of n] digit_val_digit_char)
  next
    case False
    with 1 have "nat_of_digits 0 (digits (n div 10)) = Some (n div 10)" by simp
    with False show ?thesis
      by (simp add: digits.simps [of n] nat_of_digits_append digit_val_digit_char)
  qed
qed

lemma read_nat_digits: "read_nat (digits n) = Some n"
  by (simp add: read_nat_def digits_not_Nil nat_of_digits_digits)

lemma digits_no_comma: "CHR '','' \<notin> set (digits n)"
  using digits_range [of "CHR '',''" n] by auto

lemma digits_no_newline: "newline \<notin> set (digits n)"
  using digits_range [of newline n] by (auto simp add: newline_def)

lemma digits_no_sign: "CHR ''-'' \<notin> set (digits n)" "CHR ''+'' \<notin> set (digits n)"
  using digits_range [of "CHR ''-''" n] digits_range [of "CHR ''+''" n] by auto

lemma str_nonneg: "0 \<le> i \<Longrightarrow> str i = digits (nat i)"
  by (simp add: str_def)

lemma read_int_digits: "read_int (digits n) = Some (int n)"
proof (cases "digits n")
  case Nil
  then show ?thesis by (simp add: digits_not_Nil)
next
  case (Cons c ds)
  then have "c \<in> set (digits n)" by simp
  with digits_no_sign [of n] have "c \<noteq> CHR ''-''" "c \<noteq> CHR ''+''" by auto
  with Cons read_nat_digits [of n] show ?thesis by (simp add: read_int_def)
qed

lemma read_int_str: "read_int (str i) = Some i"
proof (cases "i < 0")
  case True
  then show ?thesis by (simp add: str_def read_int_def read_nat_digits)
next
  case False
  then show ?thesis by (simp add: str_def read_int_digits)
qed

subsection \<open>Fields of a data line\<close>

lemma fields_no_comma: "CHR '','' \<notin> set f \<Longrightarrow> fields f = [f]"
  by (induction f) auto

lemma fields_comma: "CHR '','' \<notin> set f \<Longrightarrow> fields (f @ CHR '','' # rest) = f # fields rest"
  by (induction f) auto

lemma fields_row_line:
  "0 \<le> c \<Longrightarrow> 0 \<le> i \<Longrightarrow> fields (row_line c i) = [''deposit'', str c, str i, ''1'']"
  by (simp add: row_line_def str_nonneg fields_comma fields_no_comma digits_no_comma)

lemma row_line_no_newline: "0 \<le> c \<Longrightarrow> 0 \<le> i \<Longrightarrow> newline \<notin> set (row_line c i)"
  using digits_no_newline by (simp add: row_line_def str_nonneg newline_def)

lemma header_no_newline: "newline \<notin> set header"
  by (simp add: header_def newline_def)

subsection \<open>The output of a run\<close>

lemma stdout_generate:
  "stdout (generate \<lparr>rows = Some n\<rparr>) =
     concat (map (\<lambda>l. l @ [newline]) (header # map (\<lambda>k. row_line (k mod 128) k) [0..n - 1]))"
  by (simp add: generate_def print_def loop_eq comp_def)

lemma lines_generate:
  "lines_of (stdout (generate \<lparr>rows = Some n\<rparr>)) = header # map (\<lambda>k. row_line (k mod 128) k) [0..n - 1]"
proof -
  have "newline \<notin> set l" if "l \<in> set (header # map (\<lambda>k. row_line (k mod 128) k) [0..n - 1])" for l
  proof (cases "l = header")
    case True
    then show ?thesis by (simp add: header_no_newline)
  next
    case False
    with that obtain k where "0 \<le> k" and "l = row_line (k mod 128) k" by auto
    then show ?thesis by (simp add: row_line_no_newline)
  qed
  then show ?thesis
    unfolding stdout_generate by (rule lines_of_concat)
qed

lemma data_lines_generate:
  "data_lines (generate \<lparr>rows = Some n\<rparr>) = map (\<lambda>k. row_line (k mod 128) k) [0..n - 1]"
  by (simp add: data_lines_def lines_generate)

lemma data_line_cases:
  assumes "l \<in> set (data_lines (generate \<lparr>rows = Some n\<rparr>))"
  obtains i where "0 \<le> i" and "i < n" and "l = row_line (i mod 128) i"
  using assms unfolding data_lines_generate by auto

lemma length_data_lines: "length (data_lines (generate \<lparr>rows = Some n\<rparr>)) = nat n"
  by (simp add: data_lines_generate)

lemma nth_data_lines:
  "0 \<le> i \<Longrightarrow> i < n \<Longrightarrow> data_lines (generate \<lparr>rows = Some n\<rparr>) ! nat i = row_line (i mod 128) i"
  by (simp add: data_lines_generate)


lemma row_line_client: "0 \<le> c \<Longrightarrow> 0 \<le> i \<Longrightarrow> client_of (row_line c i) = Some c"
  by (simp add: client_of_def int_field_def field_def fields_row_line read_int_str)

lemma row_line_tx: "0 \<le> c \<Longrightarrow> 0 \<le> i \<Longrightarrow> tx_of (row_line c i) = Some i"
  by (simp add: tx_of_def int_field_def field_def fields_row_line read_int_str)


lemma row_line_not_header: "row_line c i \<noteq> header"
  by (simp add: row_line_def header_def)

lemma main_rows: "conv s = Some n \<Longrightarrow> main conv (RowsArg s) = generate \<lparr>rows = Some n\<rparr>"
  by (simp add: main_def parse_args_def)

subsection \<open>Evaluation on concrete inputs\<close>

lemma digit_char_eval:
  "digit_char 0 = CHR ''0''" "digit_char (Suc 0) = CHR ''1''" "digit_char 2 = CHR ''2''"
  "digit_char 3 = CHR ''3''" "digit_char 4 = CHR ''4''" "digit_char 5 = CHR ''5''"
  "digit_char 6 = CHR ''6''" "digit_char 7 = CHR ''7''" "digit_char 8 = CHR ''8''"
  "digit_char 9 = CHR ''9''"
  by code_simp+

lemmas run_simps = generate_def print_def header_def loop.simps body_def row_line_def str_def
  digits.simps digit_char_eval

lemma data_lines_three:
  "data_lines (generate \<lparr>rows = Some 3\<rparr>) = [''deposit,0,0,1'', ''deposit,1,1,1'', ''deposit,2,2,1'']"
  by (simp add: data_lines_def run_simps newline_def)

subsection \<open>The tx fields in order\<close>

lemma tx_data_lines:
  "map tx_of (data_lines (generate \<lparr>rows = Some n\<rparr>)) = map (\<lambda>k. Some (int k)) [0..<nat n]"
proof (rule nth_equalityI)
  show "length (map tx_of (data_lines (generate \<lparr>rows = Some n\<rparr>))) =
      length (map (\<lambda>k. Some (int k)) [0..<nat n])"
    by (simp add: length_data_lines)
next
  fix k
  assume "k < length (map tx_of (data_lines (generate \<lparr>rows = Some n\<rparr>)))"
  then have k: "k < nat n"
    by (simp add: length_data_lines)
  then have "data_lines (generate \<lparr>rows = Some n\<rparr>) ! nat (int k) = row_line (int k mod 128) (int k)"
    by (intro nth_data_lines) simp_all
  with k show "map tx_of (data_lines (generate \<lparr>rows = Some n\<rparr>)) ! k =
      map (\<lambda>k. Some (int k)) [0..<nat n] ! k"
    by (simp add: length_data_lines row_line_tx)
qed

section \<open>The claims\<close>

subsection \<open>The command line and the failures\<close>

text \<open>
  C9. The option \<open>--rows\<close> is optional for the parser: a command line without it
  passes parsing with \<open>rows = None\<close>; the header line is written; only then
  \<open>range\<close> raises the type error. The output holds the header when the run fails,
  and the exit status is 1.
\<close>

theorem missing_rows_header_then_type_error:
  "parse_args conv NoRows = Inr \<lparr>rows = None\<rparr>
   \<and> main conv NoRows = \<lparr>stdout = ''type,client,tx,amount'' @ [newline], failure = Some TypeError\<rparr>
   \<and> exit_status (main conv NoRows) = 1"
  by (simp add: parse_args_def main_def generate_def print_def header_def exit_status_def)

text \<open>
  C2, as stated: with the rows argument missing or not parseable as an integer, the
  run fails with no byte of output and a non-zero exit status. It fails for the
  missing argument: the output is not empty there.
\<close>

theorem missing_rows_output_counterexample:
  "\<not> (stdout (main read_int NoRows) = [] \<and> exit_status (main read_int NoRows) \<noteq> 0)"
  by (simp add: parse_args_def main_def generate_def print_def)

text \<open>
  C2, amended: a raw value that the converter rejects ends the run with the parser's
  error, no byte of output and a non-zero exit status; a missing argument ends the
  run with a non-zero exit status too (zero bytes of output are not claimed for it).
\<close>

theorem argument_error_before_output:
  assumes "conv s = None"
  shows "stdout (main conv (RowsArg s)) = []
         \<and> failure (main conv (RowsArg s)) = Some ArgumentError
         \<and> exit_status (main conv (RowsArg s)) \<noteq> 0
         \<and> exit_status (main conv NoRows) \<noteq> 0"
  using assms by (simp add: parse_args_def main_def generate_def exit_status_def)

theorem argument_error_before_output_witness:
  "read_int ''12x'' = None
   \<and> stdout (main read_int (RowsArg ''12x'')) = []
   \<and> failure (main read_int (RowsArg ''12x'')) = Some ArgumentError
   \<and> exit_status (main read_int (RowsArg ''12x'')) \<noteq> 0
   \<and> exit_status (main read_int NoRows) \<noteq> 0"
proof -
  have h: "read_int ''12x'' = None"
    by (simp add: read_int_def read_nat_def digit_val_def)
  show ?thesis
    using h argument_error_before_output [where conv = read_int and s = "''12x''"] by simp
qed

text \<open>
  C6. A negative rows value is no error: the run writes the header line and no data
  line, and ends normally with exit status 0.
\<close>

theorem negative_rows_header_only:
  assumes "conv s = Some n" and "n < 0"
  shows "main conv (RowsArg s) = \<lparr>stdout = ''type,client,tx,amount'' @ [newline], failure = None\<rparr>
         \<and> data_lines (main conv (RowsArg s)) = []
         \<and> exit_status (main conv (RowsArg s)) = 0"
proof -
  from assms(2) have "loop 0 n out = out" for out
    by (simp add: loop.simps [of 0])
  then have run: "generate \<lparr>rows = Some n\<rparr> = \<lparr>stdout = ''type,client,tx,amount'' @ [newline], failure = None\<rparr>"
    by (simp add: generate_def print_def header_def)
  from assms(2) have "data_lines (generate \<lparr>rows = Some n\<rparr>) = []"
    by (simp add: data_lines_generate)
  with run assms(1) show ?thesis
    by (simp add: main_rows [where conv = conv and s = s and n = n] exit_status_def)
qed

theorem negative_rows_header_only_witness:
  "read_int ''-5'' = Some (- 5) \<and> (- 5 :: int) < 0
   \<and> main read_int (RowsArg ''-5'') = \<lparr>stdout = ''type,client,tx,amount'' @ [newline], failure = None\<rparr>
   \<and> data_lines (main read_int (RowsArg ''-5'')) = []
   \<and> exit_status (main read_int (RowsArg ''-5'')) = 0"
proof -
  have h: "read_int ''-5'' = Some (- 5)"
    by (simp add: read_int_def read_nat_def digit_val_def)
  have neg: "(- 5 :: int) < 0"
    by simp
  show ?thesis
    using h neg negative_rows_header_only [where conv = read_int and s = "''-5''" and n = "- 5", OF h neg]
    by blast
qed

subsection \<open>The lines of the output\<close>

text \<open>
  C1. For a rows value \<open>n \<ge> 0\<close> the run writes exactly \<open>n + 1\<close> lines, each ended by
  the line terminator: the first is the literal header, which occurs once among the
  lines, and the \<open>n\<close> lines after it are the data lines; the run ends normally.
\<close>

theorem header_then_rows_lines:
  assumes "0 \<le> n"
  shows "int (length (lines_of (stdout (generate \<lparr>rows = Some n\<rparr>)))) = n + 1
         \<and> hd (lines_of (stdout (generate \<lparr>rows = Some n\<rparr>))) = ''type,client,tx,amount''
         \<and> count_list (lines_of (stdout (generate \<lparr>rows = Some n\<rparr>))) ''type,client,tx,amount'' = 1
         \<and> int (length (data_lines (generate \<lparr>rows = Some n\<rparr>))) = n
         \<and> stdout (generate \<lparr>rows = Some n\<rparr>) =
             concat (map (\<lambda>l. l @ [newline]) (lines_of (stdout (generate \<lparr>rows = Some n\<rparr>))))
         \<and> failure (generate \<lparr>rows = Some n\<rparr>) = None"
proof -
  let ?rs = "map (\<lambda>k. row_line (k mod 128) k) [0..n - 1]"
  have ls: "lines_of (stdout (generate \<lparr>rows = Some n\<rparr>)) = header # ?rs"
    by (rule lines_generate)
  have "header \<notin> set ?rs"
  proof
    assume "header \<in> set ?rs"
    then obtain k where "header = row_line (k mod 128) k"
      by auto
    with row_line_not_header [of "k mod 128" k] show False
      by simp
  qed
  then have once: "count_list (header # ?rs) header = 1"
    by (simp add: count_list_0_iff)
  have len: "int (length (header # ?rs)) = n + 1"
    using assms by simp
  have dl: "int (length (data_lines (generate \<lparr>rows = Some n\<rparr>))) = n"
    using assms by (simp add: length_data_lines)
  have out: "stdout (generate \<lparr>rows = Some n\<rparr>) = concat (map (\<lambda>l. l @ [newline]) (header # ?rs))"
    by (rule stdout_generate)
  have ok: "failure (generate \<lparr>rows = Some n\<rparr>) = None"
    by (simp add: generate_def)
  have hd: "header = ''type,client,tx,amount''"
    by (simp add: header_def)
  show ?thesis
    unfolding ls using once len dl out ok hd by (simp only: list.sel)
qed

theorem header_then_rows_lines_witness:
  "(0::int) \<le> 3
   \<and> lines_of (stdout (generate \<lparr>rows = Some 3\<rparr>)) =
       [''type,client,tx,amount'', ''deposit,0,0,1'', ''deposit,1,1,1'', ''deposit,2,2,1'']
   \<and> int (length (lines_of (stdout (generate \<lparr>rows = Some 3\<rparr>)))) = 3 + 1
   \<and> count_list (lines_of (stdout (generate \<lparr>rows = Some 3\<rparr>))) ''type,client,tx,amount'' = 1"
proof -
  have "lines_of (stdout (generate \<lparr>rows = Some 3\<rparr>)) =
      [''type,client,tx,amount'', ''deposit,0,0,1'', ''deposit,1,1,1'', ''deposit,2,2,1'']"
    by (simp add: run_simps newline_def)
  with header_then_rows_lines [of 3] show ?thesis
    by simp
qed

text \<open>
  C3. For a rows value \<open>n \<ge> 0\<close>, every data line has a client field and a tx field
  that read as integers, the client is the tx modulo 128, and it lies in \<open>[0, 127]\<close>.
\<close>

theorem client_is_tx_mod_128:
  assumes "0 \<le> n" and "l \<in> set (data_lines (generate \<lparr>rows = Some n\<rparr>))"
  shows "\<exists>c t. client_of l = Some c \<and> tx_of l = Some t \<and> c = t mod 128 \<and> 0 \<le> c \<and> c \<le> 127"
proof -
  from assms(2) obtain i where i: "0 \<le> i" "i < n" and l: "l = row_line (i mod 128) i"
    by (rule data_line_cases)
  have c: "0 \<le> i mod 128" "i mod 128 \<le> 127"
    by simp_all
  from i c have "client_of l = Some (i mod 128)" and "tx_of l = Some i"
    unfolding l by (simp_all add: row_line_client row_line_tx)
  with c show ?thesis
    by simp
qed

theorem client_is_tx_mod_128_witness:
  "(0::int) \<le> 3 \<and> ''deposit,2,2,1'' \<in> set (data_lines (generate \<lparr>rows = Some 3\<rparr>))
   \<and> (\<exists>c t. client_of ''deposit,2,2,1'' = Some c \<and> tx_of ''deposit,2,2,1'' = Some t
        \<and> c = t mod 128 \<and> 0 \<le> c \<and> c \<le> 127)"
proof -
  have le: "(0::int) \<le> 3"
    by simp
  have mem: "''deposit,2,2,1'' \<in> set (data_lines (generate \<lparr>rows = Some 3\<rparr>))"
    by (simp add: data_lines_three)
  from le mem client_is_tx_mod_128 [OF le mem] show ?thesis
    by blast
qed

text \<open>
  C4. For a rows value \<open>n \<ge> 0\<close>, the tx field of the data line at zero-based
  position \<open>k\<close> is \<open>k\<close>: the tx fields, in the order written, are \<open>0, 1, \<dots>, n - 1\<close>;
  there are \<open>n\<close> of them, no two are equal, and a later line has a greater tx.
\<close>

theorem tx_is_position:
  assumes "0 \<le> n"
  shows "map tx_of (data_lines (generate \<lparr>rows = Some n\<rparr>)) = map (\<lambda>k. Some (int k)) [0..<nat n]
         \<and> int (length (data_lines (generate \<lparr>rows = Some n\<rparr>))) = n
         \<and> distinct (map tx_of (data_lines (generate \<lparr>rows = Some n\<rparr>)))
         \<and> (\<forall>j k. j < k \<and> k < nat n \<longrightarrow>
               (\<exists>a b. tx_of (data_lines (generate \<lparr>rows = Some n\<rparr>) ! j) = Some a
                    \<and> tx_of (data_lines (generate \<lparr>rows = Some n\<rparr>) ! k) = Some b \<and> a < b))"
proof -
  let ?dl = "data_lines (generate \<lparr>rows = Some n\<rparr>)"
  have len: "int (length ?dl) = n"
    using assms by (simp add: length_data_lines)
  have "distinct (map (\<lambda>k. Some (int k)) [0..<nat n])"
    by (simp add: distinct_map inj_on_def)
  then have dist: "distinct (map tx_of ?dl)"
    by (simp only: tx_data_lines)
  have nth: "tx_of (?dl ! k) = Some (int k)" if "k < nat n" for k
  proof -
    from that have "map tx_of ?dl ! k = map (\<lambda>k. Some (int k)) [0..<nat n] ! k"
      by (simp only: tx_data_lines)
    with that show ?thesis
      by (simp add: length_data_lines)
  qed
  have incr: "\<exists>a b. tx_of (?dl ! j) = Some a \<and> tx_of (?dl ! k) = Some b \<and> a < b"
    if "j < k \<and> k < nat n" for j k
    using that nth [of j] nth [of k] by simp
  from tx_data_lines len dist incr show ?thesis
    by blast
qed

theorem tx_is_position_witness:
  "(0::int) \<le> 3 \<and> map tx_of (data_lines (generate \<lparr>rows = Some 3\<rparr>)) = [Some 0, Some 1, Some 2]"
proof -
  have "map (\<lambda>k. Some (int k)) [0..<nat 3] = [Some 0, Some 1, Some 2]"
    by (simp add: upt_rec)
  with tx_is_position [of 3] show ?thesis
    by simp
qed



text \<open>
  C8. Boundary outputs: with rows 0 the output is the header line alone, no data
  line; with rows 1 it is the header and \<open>deposit,0,0,1\<close>; with rows 200 the last
  line is \<open>deposit,71,199,1\<close>.
\<close>

theorem boundary_outputs:
  "stdout (generate \<lparr>rows = Some 0\<rparr>) = ''type,client,tx,amount'' @ [newline]
   \<and> lines_of (stdout (generate \<lparr>rows = Some 0\<rparr>)) = [''type,client,tx,amount'']
   \<and> data_lines (generate \<lparr>rows = Some 0\<rparr>) = []
   \<and> lines_of (stdout (generate \<lparr>rows = Some 1\<rparr>)) = [''type,client,tx,amount'', ''deposit,0,0,1'']
   \<and> last (lines_of (stdout (generate \<lparr>rows = Some 200\<rparr>))) = ''deposit,71,199,1''"
proof -
  have zero: "stdout (generate \<lparr>rows = Some 0\<rparr>) = ''type,client,tx,amount'' @ [newline]"
    by (simp add: run_simps)
  have zero_lines: "lines_of (stdout (generate \<lparr>rows = Some 0\<rparr>)) = [''type,client,tx,amount'']"
    by (simp add: run_simps newline_def)
  have zero_data: "data_lines (generate \<lparr>rows = Some 0\<rparr>) = []"
    by (simp add: data_lines_def zero_lines)
  have one: "lines_of (stdout (generate \<lparr>rows = Some 1\<rparr>)) = [''type,client,tx,amount'', ''deposit,0,0,1'']"
    by (simp add: run_simps newline_def)
  have "[0..200 - 1] = [0..198] @ [199::int]"
    by (simp add: upto_rec2)
  then have "last (lines_of (stdout (generate \<lparr>rows = Some 200\<rparr>))) = row_line (199 mod 128) 199"
    by (simp add: lines_generate)
  also have "\<dots> = ''deposit,71,199,1''"
    by (simp add: run_simps)
  finally show ?thesis
    using zero zero_lines zero_data one by blast
qed

text \<open>
  C10. The client values have period 128: the data lines at zero-based positions
  \<open>i\<close> and \<open>i + 128\<close>, both below the rows value, have the same client field.
\<close>

theorem client_period_128:
  assumes "0 \<le> i" and "i + 128 < n"
  shows "\<exists>c. client_of (data_lines (generate \<lparr>rows = Some n\<rparr>) ! nat i) = Some c
             \<and> client_of (data_lines (generate \<lparr>rows = Some n\<rparr>) ! nat (i + 128)) = Some c"
proof -
  from assms have a: "data_lines (generate \<lparr>rows = Some n\<rparr>) ! nat i = row_line (i mod 128) i"
    by (intro nth_data_lines) simp_all
  from assms have b: "data_lines (generate \<lparr>rows = Some n\<rparr>) ! nat (i + 128) = row_line ((i + 128) mod 128) (i + 128)"
    by (intro nth_data_lines) simp_all
  have "(i + 128) mod 128 = i mod 128"
    by simp
  with assms(1) show ?thesis
    unfolding a b by (simp add: row_line_client)
qed

theorem client_period_128_witness:
  "(0::int) \<le> 5 \<and> (5::int) + 128 < 200
   \<and> (\<exists>c. client_of (data_lines (generate \<lparr>rows = Some 200\<rparr>) ! nat 5) = Some c
          \<and> client_of (data_lines (generate \<lparr>rows = Some 200\<rparr>) ! nat (5 + 128)) = Some c)"
proof -
  have a: "(0::int) \<le> 5"
    by simp
  have b: "(5::int) + 128 < 200"
    by simp
  from a b client_period_128 [OF a b] show ?thesis
    by blast
qed

end
